theory Spec2Isabelle
  imports Complex_Main "HOL-Library.AList"
begin

section \<open>Python values shared by both modules\<close>

text \<open>
  Exceptions are values. \<open>Raised\<close> stands for an exception that a third-party
  backend raises by itself (for instance \<open>UnsolvableMatrix\<close> of munkres).
\<close>

datatype error =
    KeyError string
  | AssertionError string
  | ImportError string
  | NameError string
  | TypeError string
  | IndexError
  | ValueError string
  | ZeroDivisionError
  | OverflowError string
  | Raised string

text \<open>
  A numpy float64; a Python float has the same format. \<open>Fin x\<close> is the double whose
  value is the real number x. The result of an arithmetic operation is the exact result
  rounded to the nearest double, to the even one of two nearest, and is infinite when
  that is beyond the range of the format: \<open>round64\<close>. A decimal literal of Python
  denotes the double nearest to it, so 0.7 in a program is \<open>round64 0.7\<close> here. The sign
  of zero is not modelled.
\<close>

datatype float64 = Fin real | PosInf | NegInf | NaN

fun isfinite :: "float64 \<Rightarrow> bool" where
  "isfinite (Fin x) = True"
| "isfinite PosInf = False"
| "isfinite NegInf = False"
| "isfinite NaN = False"

text \<open>The binary exponent of a positive real: how often it can be halved before it is
  below 2, or must be doubled to reach 1.\<close>

function halvings :: "real \<Rightarrow> nat" where
  "halvings x = (if x < 2 then 0 else Suc (halvings (x / 2)))"
  by pat_completeness auto
termination
proof (relation "measure (\<lambda>x. nat \<lfloor>x\<rfloor>)", goal_cases)
  case 1
  show ?case by simp
next
  case (2 x)
  then have "\<lfloor>x / 2\<rfloor> < \<lfloor>x\<rfloor>" by linarith
  moreover from 2 have "0 < \<lfloor>x\<rfloor>" by linarith
  ultimately show ?case by simp
qed

function doublings :: "real \<Rightarrow> nat" where
  "doublings x = (if x \<le> 0 \<or> 1 \<le> x then 0 else Suc (doublings (2 * x)))"
  by pat_completeness auto
termination
proof (relation "measure (\<lambda>x. nat \<lfloor>1 / x\<rfloor>)", goal_cases)
  case 1
  show ?case by simp
next
  case (2 x)
  then have x: "0 < x" "x < 1" by auto
  then have "1 < 1 / x" by simp
  then have a: "1 \<le> \<lfloor>1 / x\<rfloor>" by linarith
  have "1 / (2 * x) = (1 / x) / 2" by simp
  then have "\<lfloor>1 / (2 * x)\<rfloor> < \<lfloor>1 / x\<rfloor>" using a by linarith
  with a show ?case by simp
qed

declare halvings.simps [simp del] doublings.simps [simp del]

definition floor_log2 :: "real \<Rightarrow> int" where
  "floor_log2 x = (if 1 \<le> x then int (halvings x) else - int (doublings x))"

definition round_half_even :: "real \<Rightarrow> int" where
  "round_half_even q =
     (let f = \<lfloor>q\<rfloor>; d = q - of_int f
      in if d < 1 / 2 then f else if 1 / 2 < d then f + 1 else if even f then f else f + 1)"

text \<open>A double has 53 significant bits; below 2 to the power \<open>-1022\<close> the spacing stays
  that of the smallest normal numbers.\<close>

definition round64 :: "real \<Rightarrow> float64" where
  "round64 x =
     (if x = 0 then Fin 0
      else (let u = 2 powi (max (floor_log2 \<bar>x\<bar>) (- 1022) - 52);
                y = of_int (round_half_even (x / u)) * u
            in if 2 ^ 1024 \<le> \<bar>y\<bar> then (if 0 < x then PosInf else NegInf) else Fin y))"

fun fl_neg :: "float64 \<Rightarrow> float64" where
  "fl_neg (Fin a) = Fin (- a)"
| "fl_neg PosInf = NegInf"
| "fl_neg NegInf = PosInf"
| "fl_neg NaN = NaN"

fun fl_add :: "float64 \<Rightarrow> float64 \<Rightarrow> float64" where
  "fl_add (Fin a) (Fin b) = round64 (a + b)"
| "fl_add NaN b = NaN"
| "fl_add a NaN = NaN"
| "fl_add PosInf NegInf = NaN"
| "fl_add NegInf PosInf = NaN"
| "fl_add PosInf b = PosInf"
| "fl_add a PosInf = PosInf"
| "fl_add NegInf b = NegInf"
| "fl_add a NegInf = NegInf"

definition fl_sub :: "float64 \<Rightarrow> float64 \<Rightarrow> float64" where
  "fl_sub a b = fl_add a (fl_neg b)"

fun fl_mul :: "float64 \<Rightarrow> float64 \<Rightarrow> float64" where
  "fl_mul (Fin a) (Fin b) = round64 (a * b)"
| "fl_mul NaN b = NaN"
| "fl_mul a NaN = NaN"
| "fl_mul (Fin a) PosInf = (if a = 0 then NaN else if 0 < a then PosInf else NegInf)"
| "fl_mul (Fin a) NegInf = (if a = 0 then NaN else if 0 < a then NegInf else PosInf)"
| "fl_mul PosInf (Fin b) = (if b = 0 then NaN else if 0 < b then PosInf else NegInf)"
| "fl_mul NegInf (Fin b) = (if b = 0 then NaN else if 0 < b then NegInf else PosInf)"
| "fl_mul PosInf PosInf = PosInf"
| "fl_mul NegInf NegInf = PosInf"
| "fl_mul PosInf NegInf = NegInf"
| "fl_mul NegInf PosInf = NegInf"

fun fl_less :: "float64 \<Rightarrow> float64 \<Rightarrow> bool" where
  "fl_less (Fin a) (Fin b) = (a < b)"
| "fl_less NaN b = False"
| "fl_less a NaN = False"
| "fl_less a NegInf = False"
| "fl_less PosInf b = False"
| "fl_less NegInf b = True"
| "fl_less a PosInf = True"

fun np_abs :: "float64 \<Rightarrow> float64" where
  "np_abs (Fin a) = Fin \<bar>a\<bar>"
| "np_abs PosInf = PosInf"
| "np_abs NegInf = PosInf"
| "np_abs NaN = NaN"

text \<open>\<open>a.min()\<close> of a flat array: NaN when it holds one, an error when it is empty.\<close>

definition fl_min :: "float64 \<Rightarrow> float64 \<Rightarrow> float64" where
  "fl_min a b = (if a = NaN \<or> b = NaN then NaN else if fl_less b a then b else a)"

definition np_min :: "float64 list \<Rightarrow> error + float64" where
  "np_min vs =
     (case vs of
        [] \<Rightarrow> Inl (ValueError ''zero-size array to reduction operation minimum'')
      | v # rest \<Rightarrow> Inr (fold (\<lambda>b a. fl_min a b) rest v))"

text \<open>\<open>int(x)\<close> on a float truncates towards zero and rejects what is not finite.\<close>

definition trunc :: "real \<Rightarrow> int" where
  "trunc x = (if 0 \<le> x then \<lfloor>x\<rfloor> else \<lceil>x\<rceil>)"

fun py_int :: "float64 \<Rightarrow> error + int" where
  "py_int (Fin x) = Inr (trunc x)"
| "py_int PosInf = Inl (OverflowError ''cannot convert float infinity to integer'')"
| "py_int NegInf = Inl (OverflowError ''cannot convert float infinity to integer'')"
| "py_int NaN = Inl (ValueError ''cannot convert float NaN to integer'')"

text \<open>\<open>str.lower()\<close> on ASCII text.\<close>

definition lower_char :: "char \<Rightarrow> char" where
  "lower_char c =
     (let n = (of_char c :: nat) in if 65 \<le> n \<and> n \<le> 90 then char_of (n + 32) else c)"

definition lower :: "string \<Rightarrow> string" where
  "lower s = map lower_char s"

section \<open>The assignment solver layer: \<open>motmetrics/lap.py\<close>\<close>

subsection \<open>Arrays and the store\<close>

text \<open>
  A cost matrix is a numpy array, an object with identity: the adapters rebind the name
  \<open>costs\<close> to copies and assign into them. The store is a list of arrays, an address is
  an index into it, and an allocation appends. An array is either of dtype float64 or of
  dtype object (the munkres adapter builds one to hold the marker \<open>DISALLOWED\<close>).
\<close>

datatype obj = Float float64 | DISALLOWED

datatype ndarray = Float64 "float64 list list" | Object "obj list list"

type_synonym addr = nat
type_synonym heap = "ndarray list"
type_synonym mask = "bool list list"

text \<open>\<open>a.copy()\<close>: a new array with the same contents.\<close>

definition np_copy :: "heap \<Rightarrow> addr \<Rightarrow> heap \<times> addr" where
  "np_copy h a = (h @ [h ! a], length h)"

text \<open>\<open>a.astype(object)\<close>: a new array of dtype object.\<close>

fun to_object :: "ndarray \<Rightarrow> ndarray" where
  "to_object (Float64 m) = Object (map (map Float) m)"
| "to_object (Object m) = Object m"

definition astype_object :: "heap \<Rightarrow> addr \<Rightarrow> heap \<times> addr" where
  "astype_object h a = (h @ [to_object (h ! a)], length h)"

text \<open>\<open>~np.isfinite(m)\<close>, \<open>np.isfinite(m)\<close>, \<open>mask.any()\<close>.\<close>

definition np_isfinite :: "float64 list list \<Rightarrow> mask" where
  "np_isfinite m = map (map isfinite) m"

definition np_not :: "mask \<Rightarrow> mask" where
  "np_not b = map (map Not) b"

definition np_any :: "mask \<Rightarrow> bool" where
  "np_any b = list_ex (list_ex id) b"

text \<open>\<open>m[mask]\<close>: the selected entries, row by row, as a flat array.\<close>

definition masked :: "'a list list \<Rightarrow> mask \<Rightarrow> 'a list" where
  "masked m b = concat (map (\<lambda>(row, brow). map fst (filter snd (zip row brow))) (zip m b))"

text \<open>\<open>m[mask] = v\<close>: the array with the selected entries overwritten.\<close>

definition setitem :: "'a list list \<Rightarrow> mask \<Rightarrow> 'a \<Rightarrow> 'a list list" where
  "setitem m b v = map (\<lambda>(row, brow). map (\<lambda>(x, s). if s then v else x) (zip row brow)) (zip m b)"

text \<open>The reals of a flat array of finite floats.\<close>

fun as_reals :: "float64 list \<Rightarrow> real list" where
  "as_reals [] = []"
| "as_reals (Fin x # vs) = x # as_reals vs"
| "as_reals (v # vs) = as_reals vs"

subsection \<open>The third-party libraries\<close>

text \<open>
  The four solver libraries are not part of the repository. Each is a parameter: a
  function of the array it is handed (it reads the array and does not write to it), or
  \<open>None\<close> when the library is not installed, so that the adapter's \<open>import\<close> fails.
  Of \<open>pywrapgraph.LinearSumAssignment\<close> the model has \<open>AddArcWithCost\<close>, which may
  reject an arc (a cost outside the 64-bit integers), and \<open>Solve\<close>, which is given the
  arcs in the order they were added and answers with its status, \<open>NumNodes()\<close> and
  \<open>RightMate\<close>. \<open>np.log10\<close> on a positive double is a parameter too: how the platform's
  logarithm rounds is not fixed by the format.
\<close>

type_synonym assignment = "nat list \<times> nat list"

type_synonym arc = "nat \<times> nat \<times> int"

record ortools_answer =
  optimal :: bool
  NumNodes :: nat
  RightMate :: "nat \<Rightarrow> nat"

record ortools_library =
  AddArcWithCost :: "arc \<Rightarrow> error option"
  Solve :: "arc list \<Rightarrow> ortools_answer"

record env =
  scipy_solve :: "(ndarray \<Rightarrow> error + assignment) option"
  solve_dense :: "(ndarray \<Rightarrow> error + assignment) option"
  munkres_compute :: "(ndarray \<Rightarrow> error + (nat \<times> nat) list) option"
  pywrapgraph :: "ortools_library option"
  np_log10 :: "real \<Rightarrow> float64"

text \<open>\<open>importlib.util.find_spec(s) is not None\<close>: the library is installed.\<close>

definition find_spec :: "env \<Rightarrow> string \<Rightarrow> bool" where
  "find_spec e s =
     (if s = ''scipy'' then scipy_solve e \<noteq> None
      else if s = ''ortools'' then pywrapgraph e \<noteq> None
      else if s = ''munkres'' then munkres_compute e \<noteq> None
      else if s = ''lapsolver'' then solve_dense e \<noteq> None
      else False)"

text \<open>
  \<open>init_standard_solvers\<close> runs when the module is imported and sets the two globals
  \<open>available_solvers\<close> and \<open>default_solver\<close>, or fails its assertion.
\<close>

definition available_solvers :: "env \<Rightarrow> string list" where
  "available_solvers e = filter (find_spec e) [''scipy'', ''ortools'', ''munkres'']"

definition init_standard_solvers :: "env \<Rightarrow> error + string" where
  "init_standard_solvers e =
     (case available_solvers e of
        [] \<Rightarrow> Inl (AssertionError ''No LAP solvers are available. Try `pip install lapsolver` or `pip install scipy`'')
      | s # _ \<Rightarrow> Inr s)"

subsection \<open>The adapters\<close>

type_synonym outcome = "(error + assignment) \<times> heap"

text \<open>
  \<open>lsa_solve_scipy\<close>: when some entry is not finite, the name \<open>costs\<close> is rebound to a
  copy, and the copy receives \<open>INVDIST\<close> at those entries. \<open>np.isfinite\<close> rejects an
  array of dtype object. The copy is read back from the store; it has the dtype of its
  source, so the second branch on the dtype is never taken.
\<close>

definition lsa_solve_scipy :: "env \<Rightarrow> heap \<Rightarrow> addr \<Rightarrow> outcome" where
  "lsa_solve_scipy e h costs =
     (case scipy_solve e of
        None \<Rightarrow> (Inl (ImportError ''scipy''), h)
      | Some solve \<Rightarrow>
         (case h ! costs of
            Object _ \<Rightarrow> (Inl (TypeError ''isfinite''), h)
          | Float64 m \<Rightarrow>
             (let inv = np_not (np_isfinite m) in
              if np_any inv then
                (let (h1, costs1) = np_copy h costs in
                 case h1 ! costs1 of
                   Object _ \<Rightarrow> (Inl (TypeError ''max''), h1)
                 | Float64 m1 \<Rightarrow>
                    (let valid = as_reals (masked m1 (np_not inv));
                         INVDIST = (if length valid > 0
                                    then fl_add (fl_mul (Fin 2) (Fin (Max (set valid)))) (Fin 1)
                                    else Fin 1);
                         h2 = h1[costs1 := Float64 (setitem m1 inv INVDIST)]
                     in (solve (h2 ! costs1), h2)))
              else (solve (h ! costs), h))))"

text \<open>\<open>lsa_solve_lapsolver\<close> hands the caller's array to \<open>solve_dense\<close> as it is.\<close>

definition lsa_solve_lapsolver :: "env \<Rightarrow> heap \<Rightarrow> addr \<Rightarrow> outcome" where
  "lsa_solve_lapsolver e h costs =
     (case solve_dense e of
        None \<Rightarrow> (Inl (ImportError ''lapsolver''), h)
      | Some solve \<Rightarrow> (solve (h ! costs), h))"

text \<open>
  \<open>lsa_solve_munkres\<close> copies first, converts the copy to dtype object when some entry is
  not finite, and writes \<open>DISALLOWED\<close> into the converted array (which is of dtype
  object, so the branch for float64 there is never taken). \<open>indices[:,0]\<close> on the
  array built from an empty list of pairs is an \<open>IndexError\<close>.
\<close>

definition columns :: "(nat \<times> nat) list \<Rightarrow> error + assignment" where
  "columns pairs = (case pairs of [] \<Rightarrow> Inl IndexError | _ \<Rightarrow> Inr (map fst pairs, map snd pairs))"

definition lsa_solve_munkres :: "env \<Rightarrow> heap \<Rightarrow> addr \<Rightarrow> outcome" where
  "lsa_solve_munkres e h costs =
     (case munkres_compute e of
        None \<Rightarrow> (Inl (ImportError ''munkres''), h)
      | Some compute \<Rightarrow>
         (let (h1, costs1) = np_copy h costs in
          case h1 ! costs1 of
            Object _ \<Rightarrow> (Inl (TypeError ''isfinite''), h1)
          | Float64 m \<Rightarrow>
             (let inv = np_not (np_isfinite m);
                  (h3, costs3) =
                    (if np_any inv then
                       (let (h2, costs2) = astype_object h1 costs1 in
                        case h2 ! costs2 of
                          Object mo \<Rightarrow> (h2[costs2 := Object (setitem mo inv DISALLOWED)], costs2)
                        | Float64 _ \<Rightarrow> (h2, costs2))
                     else (h1, costs1))
              in case compute (h3 ! costs3) of
                   Inl err \<Rightarrow> (Inl err, h3)
                 | Inr pairs \<Rightarrow> (columns pairs, h3))))"

text \<open>
  \<open>lsa_solve_ortools\<close>. \<open>np.unique\<close> sorts and removes duplicates; \<open>np.diff\<close> takes the
  differences of neighbours, in float64; \<open>np.log10\<close> of zero is minus infinity and of
  infinity is infinity. The factor \<open>f\<close> is computed from the finite entries, and only
  they become arcs: each product \<open>costs[r,c]*f\<close> is a float64, \<open>int\<close> of it fails when it
  is infinite, and the arc is added before the next entry is looked at.
\<close>

definition np_diff :: "real list \<Rightarrow> float64 list" where
  "np_diff xs = map (\<lambda>(a, b). fl_sub (Fin b) (Fin a)) (zip xs (tl xs))"

definition log10_of :: "(real \<Rightarrow> float64) \<Rightarrow> float64 \<Rightarrow> float64" where
  "log10_of lg v =
     (case v of
        Fin x \<Rightarrow> (if x = 0 then NegInf else if x < 0 then NaN else lg x)
      | PosInf \<Rightarrow> PosInf
      | NegInf \<Rightarrow> NaN
      | NaN \<Rightarrow> NaN)"

definition ortools_factor :: "(real \<Rightarrow> float64) \<Rightarrow> float64 list list \<Rightarrow> error + int" where
  "ortools_factor lg m =
     (let valid = np_isfinite m;
          min_e = (-8 :: int);
          unique = sort (remdups (as_reals (masked m valid)));
          min_diff = (if length unique = 1 then Inr (Fin (unique ! 0))
                      else if length unique > 1 then np_min (np_diff unique)
                      else Inr (Fin 1))
      in case min_diff of
           Inl err \<Rightarrow> Inl err
         | Inr md \<Rightarrow>
            (case (if md \<noteq> Fin 0
                   then (case py_int (log10_of lg (np_abs md)) of
                           Inl err \<Rightarrow> Inl err
                         | Inr t \<Rightarrow> Inr (if t < 0 then t - 1 else t))
                   else Inr 0) of
               Inl err \<Rightarrow> Inl err
             | Inr min_diff_e \<Rightarrow>
                (let e = min (max min_e min_diff_e) 0 in Inr (10 ^ nat \<bar>e\<bar>))))"

fun add_arcs :: "(arc \<Rightarrow> error option) \<Rightarrow> int \<Rightarrow> (nat \<times> nat \<times> float64) list \<Rightarrow> error + arc list" where
  "add_arcs add f [] = Inr []"
| "add_arcs add f ((r, c, x) # rest) =
     (if isfinite x then
        (case py_int (fl_mul x (Fin (of_int f))) of
           Inl err \<Rightarrow> Inl err
         | Inr k \<Rightarrow>
            (case add (r, c, k) of
               Some err \<Rightarrow> Inl err
             | None \<Rightarrow>
                (case add_arcs add f rest of
                   Inl err \<Rightarrow> Inl err
                 | Inr arcs \<Rightarrow> Inr ((r, c, k) # arcs))))
      else add_arcs add f rest)"

definition entries :: "float64 list list \<Rightarrow> (nat \<times> nat \<times> float64) list" where
  "entries m = concat (map (\<lambda>(r, row). map (\<lambda>(c, x). (r, c, x)) (enumerate 0 row)) (enumerate 0 m))"

definition ortools_arcs ::
  "(real \<Rightarrow> float64) \<Rightarrow> (arc \<Rightarrow> error option) \<Rightarrow> float64 list list \<Rightarrow> error + arc list" where
  "ortools_arcs lg add m =
     (case ortools_factor lg m of
        Inl err \<Rightarrow> Inl err
      | Inr f \<Rightarrow> add_arcs add f (entries m))"

text \<open>
  \<open>linear_sum_assignment\<close> looks the lower-cased solver name up in its table of adapters;
  \<open>lsa_solve_ortools\<close> calls it back with the default solver when the backend's status is
  not \<open>OPTIMAL\<close>. The global \<open>default_solver\<close> is what \<open>init_standard_solvers\<close> left
  there; when its assertion failed the module did not load.
\<close>

function linear_sum_assignment :: "env \<Rightarrow> heap \<Rightarrow> addr \<Rightarrow> string option \<Rightarrow> outcome"
  and lsa_solve_ortools :: "env \<Rightarrow> heap \<Rightarrow> addr \<Rightarrow> outcome"
where
  "linear_sum_assignment e h costs solver =
     (case init_standard_solvers e of
        Inl err \<Rightarrow> (Inl err, h)
      | Inr default_solver \<Rightarrow>
         (let s = lower (case solver of None \<Rightarrow> default_solver | Some name \<Rightarrow> name) in
          if s = ''lapsolver'' then lsa_solve_lapsolver e h costs
          else if s = ''scipy'' then lsa_solve_scipy e h costs
          else if s = ''munkres'' then lsa_solve_munkres e h costs
          else if s = ''ortools'' then lsa_solve_ortools e h costs
          else (Inl (KeyError s), h)))"
| "lsa_solve_ortools e h costs =
     (case pywrapgraph e of
        None \<Rightarrow> (Inl (ImportError ''ortools''), h)
      | Some assignment \<Rightarrow>
         (case h ! costs of
            Object _ \<Rightarrow> (Inl (TypeError ''isfinite''), h)
          | Float64 m \<Rightarrow>
             (case ortools_arcs (np_log10 e) (AddArcWithCost assignment) m of
                Inl err \<Rightarrow> (Inl err, h)
              | Inr arcs \<Rightarrow>
                 (let ans = Solve assignment arcs in
                  if \<not> optimal ans then
                    (case init_standard_solvers e of
                       Inl err \<Rightarrow> (Inl err, h)
                     | Inr default_solver \<Rightarrow>
                        if default_solver = ''ortools''
                        then (Inl (AssertionError ''default_solver != ortools''), h)
                        else linear_sum_assignment e h costs (Some default_solver))
                  else if NumNodes ans = 0 then (Inr ([], []), h)
                  else (Inr ([0..<NumNodes ans], map (RightMate ans) [0..<NumNodes ans]), h)))))"
  by pat_completeness auto

termination
proof (relation "measure (\<lambda>x. case x of
            Inl (e, h, costs, solver) \<Rightarrow>
              (case init_standard_solvers e of
                 Inl _ \<Rightarrow> 0
               | Inr d \<Rightarrow>
                  if lower (case solver of None \<Rightarrow> d | Some name \<Rightarrow> name) = ''ortools''
                  then 2 else 0)
          | Inr (e, h, costs) \<Rightarrow> 1)", goal_cases)
  case 1
  show ?case by simp
next
  case (2 e h costs solver d s)
  then show ?case by simp
next
  case (3 e h costs assignment m arcs ans d)
  have "lower ''scipy'' = ''scipy''" and "lower ''munkres'' = ''munkres''"
    by code_simp+
  moreover have "d = ''scipy'' \<or> d = ''ortools'' \<or> d = ''munkres''"
    using 3
    by (auto simp: init_standard_solvers_def available_solvers_def split: list.splits if_splits)
  ultimately show ?case using 3 by auto
qed

subsection \<open>A reference backend for the worked examples\<close>

text \<open>
  The examples below need a concrete backend. \<open>exhaustive_solve\<close> answers as
  \<open>scipy.optimize.linear_sum_assignment\<close> does on a finite matrix: a complete assignment
  (as many pairs as the smaller dimension) of least total cost, found here by trying
  every one. No general theorem depends on it.
\<close>

fun matchings :: "nat list \<Rightarrow> nat list \<Rightarrow> (nat \<times> nat) list list" where
  "matchings [] cs = [[]]"
| "matchings (r # rs) cs =
     concat (map (\<lambda>c. map ((#) (r, c)) (matchings rs (remove1 c cs))) cs) @ matchings rs cs"

definition total_cost :: "real list list \<Rightarrow> (nat \<times> nat) list \<Rightarrow> real" where
  "total_cost m ps = sum_list (map (\<lambda>(r, c). m ! r ! c) ps)"

definition exhaustive_solve :: "ndarray \<Rightarrow> error + assignment" where
  "exhaustive_solve a =
     (case a of
        Object _ \<Rightarrow> Inl (ValueError ''expected a matrix of numbers'')
      | Float64 m \<Rightarrow>
          if \<not> list_all (list_all isfinite) m
          then Inl (ValueError ''matrix contains invalid numeric entries'')
          else (let n = length m;
                    k = (case m of [] \<Rightarrow> 0 | row # _ \<Rightarrow> length row);
                    full = filter (\<lambda>ps. length ps = min n k) (matchings [0..<n] [0..<k]);
                    best = arg_min_list (total_cost (map as_reals m)) full
                in Inr (map fst best, map snd best)))"

text \<open>An installation with scipy only, and one with ortools and scipy in which the
  ortools backend reports a status other than \<open>OPTIMAL\<close>. In both, \<open>np.log10\<close> is the
  logarithm rounded to the nearest double, and \<open>AddArcWithCost\<close> accepts the costs that
  fit into 64 bits.\<close>

definition correctly_rounded_log10 :: "real \<Rightarrow> float64" where
  "correctly_rounded_log10 x = round64 (log 10 x)"

definition int64_only :: "arc \<Rightarrow> error option" where
  "int64_only a =
     (case a of (r, c, k) \<Rightarrow>
        if - (2 ^ 63) \<le> k \<and> k < 2 ^ 63 then None
        else Some (OverflowError ''in method LinearSumAssignment_AddArcWithCost''))"

definition scipy_only :: env where
  "scipy_only = \<lparr>scipy_solve = Some exhaustive_solve, solve_dense = None,
                  munkres_compute = None, pywrapgraph = None,
                  np_log10 = correctly_rounded_log10\<rparr>"

definition ortools_infeasible :: env where
  "ortools_infeasible =
     \<lparr>scipy_solve = Some exhaustive_solve, solve_dense = None, munkres_compute = None,
      pywrapgraph = Some \<lparr>AddArcWithCost = int64_only,
                          Solve = (\<lambda>arcs. \<lparr>optimal = False, NumNodes = 0, RightMate = (\<lambda>i. 0)\<rparr>)\<rparr>,
      np_log10 = correctly_rounded_log10\<rparr>"

section \<open>The metrics module: \<open>motmetrics/metrics.py\<close>\<close>

subsection \<open>The event log\<close>

text \<open>
  Modelled from the spec: the event log is produced by \<open>motmetrics/mot.py\<close>
  (\<open>MOTAccumulator\<close>), which is not among the sources. It is a table of rows keyed and
  ordered by (FrameId, EventId), with the columns \<open>Type\<close>, \<open>OId\<close>, \<open>HId\<close> and \<open>D\<close>;
  an absent identity or distance (null, NaN) is \<open>None\<close>.
\<close>

datatype event_type = MATCH | SWITCH | FP | MISS | RAW

record event =
  FrameId :: nat
  EventId :: nat
  Type :: event_type
  OId :: "string option"
  HId :: "string option"
  D :: "real option"

type_synonym dataframe = "event list"

text \<open>\<open>df.Type.isin([t]).sum()\<close>, \<open>col.count()\<close> and \<open>col.value_counts()\<close>; the last two skip
  absent values. The order of the index of \<open>value_counts\<close> is not modelled (the code only
  counts and sums over it); the model lists the identities in order of appearance.\<close>

definition count_type :: "event_type \<Rightarrow> dataframe \<Rightarrow> nat" where
  "count_type t df = length (filter (\<lambda>ev. Type ev = t) df)"

definition present :: "'a option list \<Rightarrow> 'a list" where
  "present col = List.map_filter id col"

definition value_counts :: "string option list \<Rightarrow> (string \<times> nat) list" where
  "value_counts col = map (\<lambda>k. (k, count_list (present col) k)) (remdups (present col))"

subsection \<open>Values of metrics\<close>

text \<open>What the metric functions modelled here return: \<open>None\<close>, a Python float, or a pandas
  Series indexed by object identity.\<close>

datatype pyval = PNone | PyFloat real | Series "(string \<times> real) list"

subsection \<open>\<open>MetricsContainer\<close>\<close>

text \<open>
  A function object: its \<open>__name__\<close>, the names of its positional parameters (what
  \<open>inspect.getargspec(fnc).args\<close> returns) and its body. Calling it with the wrong number
  of arguments is a \<open>TypeError\<close>.
\<close>

record pyfunction =
  fname :: string
  argnames :: "string list"
  body :: "dataframe \<Rightarrow> pyval list \<Rightarrow> error + pyval"

definition call :: "pyfunction \<Rightarrow> dataframe \<Rightarrow> pyval list \<Rightarrow> error + pyval" where
  "call f df vals =
     (if Suc (length vals) \<noteq> length (argnames f) then Inl (TypeError (fname f))
      else body f df vals)"

text \<open>\<open>self.metrics\<close>: a dict, in insertion order, from a name to its entry.\<close>

record minfo =
  name :: string
  fnc :: pyfunction
  deps :: "string list"

type_synonym metrics = "(string \<times> minfo) list"

datatype deps_arg = DepsNone | DepsAuto | DepsList "string list"

definition register :: "metrics \<Rightarrow> pyfunction option \<Rightarrow> deps_arg \<Rightarrow> string option \<Rightarrow> error + metrics" where
  "register ms f d n =
     (case f of
        None \<Rightarrow> Inl (AssertionError ''No function given for metric'')
      | Some fn \<Rightarrow>
         (let ds = (case d of DepsNone \<Rightarrow> [] | DepsAuto \<Rightarrow> drop 1 (argnames fn) | DepsList l \<Rightarrow> l);
              nm = (case n of None \<Rightarrow> fname fn | Some s \<Rightarrow> s)
          in Inr (AList.update nm \<lparr>name = nm, fnc = fn, deps = ds\<rparr> ms)))"

definition names :: "metrics \<Rightarrow> string list" where
  "names ms = map (\<lambda>(k, v). name v) ms"

text \<open>
  The state of one \<open>summarize\<close> call: its \<open>cache\<close> dict, and a log of the metric functions
  that have run, in order (not in the source; it is what the claims about memoization
  count). \<open>_compute\<close> recurses through the dependencies; its first argument bounds the
  depth of that recursion, and \<open>None\<close> means the bound was reached before it returned.
\<close>

record cstate =
  cache :: "string \<rightharpoonup> pyval"
  executed :: "string list"

fun compute :: "nat \<Rightarrow> metrics \<Rightarrow> dataframe \<Rightarrow> string \<Rightarrow> cstate \<Rightarrow> string \<Rightarrow> (error + pyval \<times> cstate) option"
  and compute_deps :: "nat \<Rightarrow> metrics \<Rightarrow> dataframe \<Rightarrow> string \<Rightarrow> string list \<Rightarrow> pyval list \<Rightarrow> cstate
                         \<Rightarrow> (error + pyval list \<times> cstate) option"
where
  "compute 0 ms df nm st parent = None"
| "compute (Suc n) ms df nm st parent =
     (case map_of ms nm of
        None \<Rightarrow> Some (Inl (AssertionError (''Cannot find metric '' @ nm @ '' required by '' @ parent @ ''.'')))
      | Some mi \<Rightarrow>
         (case compute_deps n ms df nm (deps mi) [] st of
            None \<Rightarrow> None
          | Some (Inl err) \<Rightarrow> Some (Inl err)
          | Some (Inr (vals, st1)) \<Rightarrow>
             (case call (fnc mi) df vals of
                Inl err \<Rightarrow> Some (Inl err)
              | Inr v \<Rightarrow> Some (Inr (v, st1\<lparr>executed := executed st1 @ [nm]\<rparr>)))))"
| "compute_deps n ms df nm [] vals st = Some (Inr (vals, st))"
| "compute_deps n ms df nm (depname # rest) vals st =
     (case cache st depname of
        Some v \<Rightarrow> compute_deps n ms df nm rest (vals @ [v]) st
      | None \<Rightarrow>
         (case compute n ms df depname st nm of
            None \<Rightarrow> None
          | Some (Inl err) \<Rightarrow> Some (Inl err)
          | Some (Inr (v, st1)) \<Rightarrow>
              compute_deps n ms df nm rest (vals @ [v]) (st1\<lparr>cache := (cache st1)(depname \<mapsto> v)\<rparr>)))"

text \<open>\<open>MetricsContainer.summarize\<close>: the loop over the requested names, then the
  \<open>OrderedDict\<close> of the cached values (a repeated key keeps its first position).\<close>

fun summarize_loop :: "nat \<Rightarrow> metrics \<Rightarrow> dataframe \<Rightarrow> string list \<Rightarrow> cstate \<Rightarrow> (error + cstate) option" where
  "summarize_loop n ms df [] st = Some (Inr st)"
| "summarize_loop n ms df (mname # rest) st =
     (case compute n ms df mname st ''summarize'' of
        None \<Rightarrow> None
      | Some (Inl err) \<Rightarrow> Some (Inl err)
      | Some (Inr (v, st1)) \<Rightarrow> summarize_loop n ms df rest (st1\<lparr>cache := (cache st1)(mname \<mapsto> v)\<rparr>))"

fun ordered_dict :: "(string \<rightharpoonup> pyval) \<Rightarrow> string list \<Rightarrow> (string \<times> pyval) list \<Rightarrow> error + (string \<times> pyval) list" where
  "ordered_dict c [] acc = Inr acc"
| "ordered_dict c (k # ks) acc =
     (case c k of
        None \<Rightarrow> Inl (KeyError k)
      | Some v \<Rightarrow> ordered_dict c ks (AList.update k v acc))"

definition MetricsContainer_summarize ::
  "nat \<Rightarrow> metrics \<Rightarrow> dataframe \<Rightarrow> string list option
     \<Rightarrow> (error + (string \<times> pyval) list \<times> string list) option" where
  "MetricsContainer_summarize n ms df metrics_arg =
     (let st0 = \<lparr>cache = Map.empty, executed = []\<rparr>;
          requested = (case metrics_arg of None \<Rightarrow> names ms | Some l \<Rightarrow> l)
      in case summarize_loop n ms df requested st0 of
           None \<Rightarrow> None
         | Some (Inl err) \<Rightarrow> Some (Inl err)
         | Some (Inr st) \<Rightarrow>
            (case ordered_dict (cache st) requested [] of
               Inl err \<Rightarrow> Some (Inl err)
             | Inr d \<Rightarrow> Some (Inr (d, executed st))))"

subsection \<open>The metric functions\<close>

text \<open>The functions that the claims are about, and those that they depend on when
  registered as in \<open>default_metrics\<close>. A reference to a name that is bound nowhere in the
  module raises \<open>NameError\<close> as soon as it is evaluated.\<close>

definition num_matches :: "dataframe \<Rightarrow> error + pyval" where
  "num_matches df = Inr (PyFloat (real (count_type MATCH df)))"

definition num_switches :: "dataframe \<Rightarrow> error + pyval" where
  "num_switches df = Inr (PyFloat (real (count_type SWITCH df)))"

definition num_falsepositives :: "dataframe \<Rightarrow> error + pyval" where
  "num_falsepositives df = Inr (PyFloat (real (count_type FP df)))"

text \<open>\<open>num_misses\<close> evaluates the count and has no \<open>return\<close>: it returns \<open>None\<close>.\<close>

definition num_misses :: "dataframe \<Rightarrow> error + pyval" where
  "num_misses df = (let discarded = PyFloat (real (count_type MISS df)) in Inr PNone)"

definition num_objects :: "dataframe \<Rightarrow> error + pyval" where
  "num_objects df = Inr (PyFloat (real (length (present (map OId df)))))"

definition obj_frequencies :: "dataframe \<Rightarrow> error + pyval" where
  "obj_frequencies df = Inr (Series (map (\<lambda>(k, c). (k, real c)) (value_counts (map OId df))))"

text \<open>\<open>track_ratios\<close> starts by evaluating \<open>data\<close>; \<open>mostly_tracked\<close> and \<open>mostly_lost\<close> start
  by evaluating \<open>track_ratio\<close>. Neither name is a parameter or a global of the module.\<close>

definition track_ratios :: "dataframe \<Rightarrow> pyval \<Rightarrow> error + pyval" where
  "track_ratios df obj_frequencies_arg = Inl (NameError ''data'')"

definition mostly_tracked :: "dataframe \<Rightarrow> pyval \<Rightarrow> error + pyval" where
  "mostly_tracked df track_ratios_arg = Inl (NameError ''track_ratio'')"

definition mostly_lost :: "dataframe \<Rightarrow> pyval \<Rightarrow> error + pyval" where
  "mostly_lost df track_ratios_arg = Inl (NameError ''track_ratio'')"

text \<open>The function objects: a function of \<open>df\<close> alone, and one of \<open>df\<close> and one more
  parameter.\<close>

definition def1 :: "string \<Rightarrow> (dataframe \<Rightarrow> error + pyval) \<Rightarrow> pyfunction" where
  "def1 nm f = \<lparr>fname = nm, argnames = [''df''], body = (\<lambda>df vals. f df)\<rparr>"

definition def2 :: "string \<Rightarrow> string \<Rightarrow> (dataframe \<Rightarrow> pyval \<Rightarrow> error + pyval) \<Rightarrow> pyfunction" where
  "def2 nm arg f = \<lparr>fname = nm, argnames = [''df'', arg], body = (\<lambda>df vals. f df (hd vals))\<rparr>"

subsection \<open>The module-level \<open>summarize\<close>\<close>

text \<open>
  An input is a \<open>MOTAccumulator\<close> (it has \<open>events\<close>) or a data frame. \<open>accs\<close> is one
  input or a list of them. \<open>names\<close> is \<open>None\<close>, a string (which is an \<open>Iterable\<close>: of its
  characters), a list of labels, or a value that is not iterable, here an integer.

  \<open>compute_metrics\<close> is a function of the event log alone. What it returns is a dictionary
  of pandas and numpy results (sums and quotients of float64, slices by index label that
  raise on a log whose index is not sorted); \<open>summarize\<close> only wraps each dictionary, as it
  comes, into a frame of one row. The model of \<open>summarize\<close> therefore takes
  \<open>compute_metrics\<close> as a parameter, a function from the event log to a row or an
  exception, and what is proved of \<open>summarize\<close> holds whatever \<open>compute_metrics\<close> does. A
  table is a list of labelled rows; \<open>pd.concat\<close> rejects an empty list of frames.
\<close>

datatype accumulator = MOTAccumulator dataframe | DataFrame dataframe

datatype accs_arg = One accumulator | Several "accumulator list"

datatype label = IntLabel int | StrLabel string

datatype names_arg = NamesNone | NamesStr string | NamesList "label list" | NamesInt int

definition pd_concat :: "(label \<times> 'row) list \<Rightarrow> error + (label \<times> 'row) list" where
  "pd_concat dfs = (if dfs = [] then Inl (ValueError ''No objects to concatenate'') else Inr dfs)"

text \<open>The loop over \<open>zip(names, events)\<close>: one frame per pair, in order; the first
  exception of \<open>compute_metrics\<close> ends it.\<close>

fun frames :: "(dataframe \<Rightarrow> error + 'row) \<Rightarrow> (label \<times> dataframe) list \<Rightarrow> error + (label \<times> 'row) list" where
  "frames compute_metrics [] = Inr []"
| "frames compute_metrics ((nm, ev) # rest) =
     (case compute_metrics ev of
        Inl err \<Rightarrow> Inl err
      | Inr row \<Rightarrow>
         (case frames compute_metrics rest of
            Inl err \<Rightarrow> Inl err
          | Inr dfs \<Rightarrow> Inr ((nm, row) # dfs)))"

definition summarize ::
  "(dataframe \<Rightarrow> error + 'row) \<Rightarrow> accs_arg \<Rightarrow> names_arg \<Rightarrow> error + (label \<times> 'row) list" where
  "summarize compute_metrics accs_in names_in =
     (let accs = (case accs_in of One a \<Rightarrow> [a] | Several l \<Rightarrow> l);
          nms = (case names_in of
                   NamesNone \<Rightarrow> map (\<lambda>i. IntLabel (int i)) [0..<length accs]
                 | NamesStr s \<Rightarrow> map (\<lambda>c. StrLabel [c]) s
                 | NamesList l \<Rightarrow> l
                 | NamesInt i \<Rightarrow> [IntLabel i]);
          events = map (\<lambda>d. case d of MOTAccumulator ev \<Rightarrow> ev | DataFrame ev \<Rightarrow> ev) accs
      in case frames compute_metrics (zip nms events) of
           Inl err \<Rightarrow> Inl err
         | Inr dfs \<Rightarrow> pd_concat dfs)"

section \<open>Notions used in the statements\<close>

text \<open>The finite costs of a matrix, and what C2 says of the value \<open>s\<close> that replaces the
  costs that are not finite.\<close>

definition finite_costs :: "float64 list list \<Rightarrow> real list" where
  "finite_costs m = concat (map as_reals m)"

definition strictly_above_bound :: "float64 list list \<Rightarrow> real \<Rightarrow> bool" where
  "strictly_above_bound m s =
     (if finite_costs m = [] then s = 1 else s > 2 * Max (set (finite_costs m)) + 1)"

text \<open>
  The dependency relation of a registry, a name from which a dependency cycle can be
  reached, a registry in which every declared dependency is registered, and a registry
  none of whose functions raises on the event log when given one value per dependency.
\<close>

definition dep_rel :: "metrics \<Rightarrow> (string \<times> string) set" where
  "dep_rel ms = {(a, b). \<exists>mi. map_of ms a = Some mi \<and> b \<in> set (deps mi)}"

definition reaches_cycle :: "metrics \<Rightarrow> string \<Rightarrow> bool" where
  "reaches_cycle ms a \<longleftrightarrow> (\<exists>c. (a, c) \<in> (dep_rel ms)\<^sup>* \<and> (c, c) \<in> (dep_rel ms)\<^sup>+)"

definition all_registered :: "metrics \<Rightarrow> bool" where
  "all_registered ms \<longleftrightarrow> (\<forall>(k, mi) \<in> set ms. \<forall>d \<in> set (deps mi). map_of ms d \<noteq> None)"

definition never_raises :: "metrics \<Rightarrow> dataframe \<Rightarrow> bool" where
  "never_raises ms df \<longleftrightarrow>
     (\<forall>(k, mi) \<in> set ms. \<forall>vals. length vals = length (deps mi)
         \<longrightarrow> (\<exists>v. call (fnc mi) df vals = Inr v))"

text \<open>The invariant of the cache: it holds no value for a name that reaches a cycle.\<close>

definition clean :: "metrics \<Rightarrow> cstate \<Rightarrow> bool" where
  "clean ms st \<longleftrightarrow> (\<forall>k. reaches_cycle ms k \<longrightarrow> cache st k = None)"

text \<open>The event log of an input of \<open>summarize\<close>.\<close>

definition events_of :: "accumulator \<Rightarrow> dataframe" where
  "events_of d = (case d of MOTAccumulator ev \<Rightarrow> ev | DataFrame ev \<Rightarrow> ev)"

subsection \<open>Data of the worked examples\<close>

text \<open>An event log of one frame: object a matched, object b missed.\<close>

definition example_log :: dataframe where
  "example_log =
     [\<lparr>FrameId = 0, EventId = 0, Type = MATCH, OId = Some ''a'', HId = Some ''1'', D = Some 0.5\<rparr>,
      \<lparr>FrameId = 0, EventId = 1, Type = MISS, OId = Some ''b'', HId = None, D = None\<rparr>]"

text \<open>\<open>def a(df, a): return a\<close>, and the registry after \<open>register(a, deps='auto')\<close>: the
  metric a depends on itself.\<close>

definition self_dependent :: pyfunction where
  "self_dependent = def2 ''a'' ''a'' (\<lambda>df a. Inr a)"

definition cyclic :: metrics where
  "cyclic = [(''a'', \<lparr>name = ''a'', fnc = self_dependent, deps = [''a'']\<rparr>)]"

text \<open>The registry after the four registrations of \<open>default_metrics\<close> that concern the
  track ratios: \<open>register(obj_frequencies)\<close>, then \<open>track_ratios\<close>, \<open>mostly_tracked\<close> and
  \<open>mostly_lost\<close> with \<open>deps='auto'\<close>.\<close>

definition tracking_registry :: metrics where
  "tracking_registry =
     [(''obj_frequencies'',
         \<lparr>name = ''obj_frequencies'', fnc = def1 ''obj_frequencies'' obj_frequencies, deps = []\<rparr>),
      (''track_ratios'',
         \<lparr>name = ''track_ratios'', fnc = def2 ''track_ratios'' ''obj_frequencies'' track_ratios,
          deps = [''obj_frequencies'']\<rparr>),
      (''mostly_tracked'',
         \<lparr>name = ''mostly_tracked'', fnc = def2 ''mostly_tracked'' ''track_ratios'' mostly_tracked,
          deps = [''track_ratios'']\<rparr>),
      (''mostly_lost'',
         \<lparr>name = ''mostly_lost'', fnc = def2 ''mostly_lost'' ''track_ratios'' mostly_lost,
          deps = [''track_ratios'']\<rparr>)]"

section \<open>Float64 arithmetic at the values of the examples\<close>

lemma round64_zero: "round64 0 = Fin 0"
  by (simp add: round64_def)

lemma round64_one: "round64 1 = Fin 1"
  by code_simp

lemma round64_2e16: "round64 (2 * 10 ^ 16) = Fin (2 * 10 ^ 16)"
  by code_simp

lemma round64_2e16_plus_1: "round64 (2 * 10 ^ 16 + 1) = Fin (2 * 10 ^ 16)"
  by code_simp

lemma halvings_pow: "halvings (2 ^ n) = n"
proof (induction n)
  case 0
  show ?case by (simp add: halvings.simps)
next
  case (Suc n)
  have "\<not> (2::real) ^ n < 1" by (simp add: not_less)
  then have "halvings (2 ^ Suc n) = Suc (halvings (2 ^ Suc n / 2))"
    by (subst halvings.simps) simp
  with Suc show ?case by simp
qed

lemma round64_overflow:
  assumes "1024 \<le> n"
  shows "round64 (2 ^ n) = PosInf"
proof -
  have fl: "floor_log2 \<bar>2 ^ n\<bar> = int n"
    by (simp add: floor_log2_def halvings_pow)
  have m: "max (int n) (- 1022) - 52 = int (n - 52)" using assms by simp
  have q: "(2::real) ^ n / 2 ^ (n - 52) = 2 ^ 52"
    using assms by (simp add: power_diff)
  have r: "round_half_even (2 ^ 52) = 2 ^ 52"
  proof -
    have "\<lfloor>(2::real) ^ 52\<rfloor> = 2 ^ 52" by (metis floor_of_int of_int_numeral of_int_power)
    then show ?thesis by (simp add: round_half_even_def Let_def)
  qed
  have y: "of_int (2 ^ 52) * (2::real) ^ (n - 52) = 2 ^ n"
  proof -
    have "(2::real) ^ 52 * 2 ^ (n - 52) = 2 ^ (52 + (n - 52))" by (simp only: power_add)
    with assms show ?thesis by simp
  qed
  have big: "(2::real) ^ 1024 \<le> 2 ^ n" using assms by (intro power_increasing) simp_all
  show ?thesis
    unfolding round64_def Let_def fl m power_int_of_nat q r y
    using big by simp
qed

section \<open>The solver layer: what the adapters hand to the backends\<close>

lemma lower_names:
  "lower ''scipy'' = ''scipy''"
  "lower ''munkres'' = ''munkres''"
  "lower ''ortools'' = ''ortools''"
  "lower ''lapsolver'' = ''lapsolver''"
  by code_simp+

lemma default_scipy: "scipy_solve e = Some solve \<Longrightarrow> init_standard_solvers e = Inr ''scipy''"
  by (simp add: init_standard_solvers_def available_solvers_def find_spec_def)

lemma zip_map_self: "zip xs (map f xs) = map (\<lambda>x. (x, f x)) xs"
  by (induction xs) auto

lemma setitem_inv:
  "setitem m (np_not (np_isfinite m)) v = map (map (\<lambda>x. if isfinite x then x else v)) m"
  by (simp add: setitem_def np_not_def np_isfinite_def zip_map_self)

lemma as_reals_filter: "as_reals (filter isfinite row) = as_reals row"
  by (induction row rule: as_reals.induct) auto

lemma as_reals_append: "as_reals (xs @ ys) = as_reals xs @ as_reals ys"
  by (induction xs rule: as_reals.induct) auto

lemma as_reals_concat: "as_reals (concat xss) = concat (map as_reals xss)"
  by (induction xss) (auto simp: as_reals_append)

lemma masked_valid:
  "as_reals (masked m (np_not (np_not (np_isfinite m)))) = finite_costs m"
proof -
  have row: "map fst (filter snd (map (\<lambda>x. (x, isfinite x)) row)) = filter isfinite row" for row
    by (induction row) auto
  have "masked m (np_not (np_not (np_isfinite m))) = concat (map (filter isfinite) m)"
    by (simp add: masked_def np_not_def np_isfinite_def zip_map_self row comp_def)
  then show ?thesis
    by (simp add: finite_costs_def comp_def as_reals_filter as_reals_concat)
qed

lemma np_any_inv:
  "np_any (np_not (np_isfinite m)) \<longleftrightarrow> \<not> list_all (list_all isfinite) m"
  by (auto simp: np_any_def np_not_def np_isfinite_def list_ex_iff list_all_iff)

lemma all_finite_id:
  "list_all (list_all isfinite) m \<Longrightarrow> map (map (\<lambda>x. if isfinite x then x else v)) m = m"
  by (induction m) (auto simp: list_all_iff map_idI)

text \<open>The scipy adapter in one equation: the array handed to the backend and the store
  it leaves.\<close>

lemma lsa_solve_scipy_eq:
  assumes "scipy_solve e = Some solve" and "h ! costs = Float64 m"
  shows "lsa_solve_scipy e h costs =
     (let s = (if finite_costs m = [] then Fin 1
               else fl_add (fl_mul (Fin 2) (Fin (Max (set (finite_costs m))))) (Fin 1));
          m' = map (map (\<lambda>x. if isfinite x then x else s)) m
      in if list_all (list_all isfinite) m then (solve (Float64 m), h)
         else (solve (Float64 m'), h @ [Float64 m']))"
  using assms
  by (simp add: lsa_solve_scipy_def np_any_inv np_copy_def Let_def setitem_inv masked_valid
      del: fl_add.simps fl_mul.simps)

lemma exhaustive_1x1: "exhaustive_solve (Float64 [[Fin 1]]) = Inr ([0], [0])"
  by code_simp

lemma exhaustive_1x2: "exhaustive_solve (Float64 [[Fin 0, Fin 1]]) = Inr ([0], [0])"
  by code_simp

text \<open>
  C1 (code defect). The claim: a pair whose cost is not finite never appears in the
  assignment, and a matrix with no finite cost gives two empty sequences. On the scipy
  path (the default whenever scipy is installed) a matrix without a finite cost reaches
  the backend as the matrix of ones of the same shape, and the backend's answer is
  returned as it is: for the matrix with the single entry NaN that answer is the pair
  (0, 0).
\<close>

theorem scipy_assigns_nonfinite_pairs:
  assumes "scipy_solve e = Some solve" and "h ! costs = Float64 m"
    and "list_all (list_all (\<lambda>x. \<not> isfinite x)) m"
  shows "fst (linear_sum_assignment e h costs None) = solve (Float64 (map (map (\<lambda>x. Fin 1)) m))"
proof -
  have "as_reals row = []" if "list_all (\<lambda>x. \<not> isfinite x) row" for row
    using that by (induction row rule: as_reals.induct) auto
  then have fc: "finite_costs m = []"
    using assms(3) by (auto simp: finite_costs_def list_all_iff)
  have ones: "map (map (\<lambda>x. if isfinite x then x else Fin 1)) m = map (map (\<lambda>x. Fin 1)) m"
    using assms(3) by (auto simp: list_all_iff)
  have "fst (lsa_solve_scipy e h costs) =
          solve (Float64 (map (map (\<lambda>x. if isfinite x then x else Fin 1)) m))"
    using assms(1,2) fc by (simp add: lsa_solve_scipy_eq Let_def all_finite_id)
  then show ?thesis
    by (simp add: default_scipy[OF assms(1)] lower_names ones)
qed

theorem scipy_assigns_nonfinite_pairs_witness:
  "fst (linear_sum_assignment scipy_only [Float64 [[NaN]]] 0 None) = Inr ([0], [0])"
proof -
  have a: "scipy_solve scipy_only = Some exhaustive_solve" by (simp add: scipy_only_def)
  have b: "[Float64 [[NaN]]] ! 0 = Float64 [[NaN]]" by simp
  have c: "list_all (list_all (\<lambda>x. \<not> isfinite x)) [[NaN]]" by simp
  show ?thesis using scipy_assigns_nonfinite_pairs[OF a b c] by (simp add: exhaustive_1x1)
qed

text \<open>
  C2 (corrected). The claim: the replacement value is strictly greater than twice the
  greatest finite cost plus one. For the matrix with the row (0, NaN) the copy that the
  adapter leaves in the store holds 1 in place of NaN, and 1 is not strictly greater than
  2 * 0 + 1.
\<close>

theorem sentinel_not_strictly_above:
  "snd (lsa_solve_scipy scipy_only [Float64 [[Fin 0, NaN]]] 0) ! 1 = Float64 [[Fin 0, Fin 1]]
   \<and> \<not> strictly_above_bound [[Fin 0, NaN]] 1"
proof -
  have s: "scipy_solve scipy_only = Some exhaustive_solve" by (simp add: scipy_only_def)
  have b: "[Float64 [[Fin 0, NaN]]] ! 0 = Float64 [[Fin 0, NaN]]" by simp
  show ?thesis
    by (simp add: lsa_solve_scipy_eq[OF s b] finite_costs_def Let_def strictly_above_bound_def
        round64_zero round64_one)
qed

text \<open>
  C2 as amended: the scipy backend receives the matrix in which every cost that is not
  finite is replaced by the float64 value of \<open>2 * max + 1\<close>, max being the greatest
  finite cost: the product and the sum are each rounded to a double and are infinite
  beyond the range of the format. The value is 1 when there is no finite cost, and the
  finite costs are as they were. So the replacement is the bound itself as float64
  arithmetic gives it, which can equal the exact bound (1 for the greatest cost 0) or
  lie below it (for the greatest cost 10 to the power 16 it is 2 * 10 ^ 16).
\<close>

theorem scipy_sentinel_float64:
  assumes "scipy_solve e = Some solve" and "h ! costs = Float64 m"
  shows "fst (lsa_solve_scipy e h costs) =
           solve (Float64 (map (map (\<lambda>x. if isfinite x then x
              else if finite_costs m = [] then Fin 1
              else fl_add (fl_mul (Fin 2) (Fin (Max (set (finite_costs m))))) (Fin 1))) m))"
  using assms by (simp add: lsa_solve_scipy_eq Let_def all_finite_id del: fl_add.simps fl_mul.simps)

theorem scipy_sentinel_float64_witness:
  "scipy_solve scipy_only = Some exhaustive_solve
   \<and> [Float64 [[Fin (10 ^ 16), NaN]]] ! 0 = Float64 [[Fin (10 ^ 16), NaN]]
   \<and> fst (lsa_solve_scipy scipy_only [Float64 [[Fin (10 ^ 16), NaN]]] 0)
       = exhaustive_solve (Float64 [[Fin (10 ^ 16), Fin (2 * 10 ^ 16)]])"
proof -
  have a: "scipy_solve scipy_only = Some exhaustive_solve" by (simp add: scipy_only_def)
  have b: "[Float64 [[Fin (10 ^ 16), NaN]]] ! 0 = Float64 [[Fin (10 ^ 16), NaN]]" by simp
  have r: "round64 20000000000000000 = Fin 20000000000000000"
    "round64 20000000000000001 = Fin 20000000000000000"
    using round64_2e16 round64_2e16_plus_1 by simp_all
  show ?thesis using a b scipy_sentinel_float64[OF a b] by (simp add: finite_costs_def r)
qed

text \<open>For the greatest cost 2 to the power 1023 the product overflows: the replacement
  is plus infinity.\<close>

lemma sentinel_overflows:
  "snd (lsa_solve_scipy scipy_only [Float64 [[Fin (2 ^ 1023), NaN]]] 0) ! 1
     = Float64 [[Fin (2 ^ 1023), PosInf]]"
proof -
  have s: "scipy_solve scipy_only = Some exhaustive_solve" by (simp add: scipy_only_def)
  have b: "[Float64 [[Fin (2 ^ 1023), NaN]]] ! 0 = Float64 [[Fin (2 ^ 1023), NaN]]" by simp
  have "(2::real) * 2 ^ 1023 = 2 ^ 1024" by simp
  then have "fl_add (fl_mul (Fin 2) (Fin (2 ^ 1023))) (Fin 1) = PosInf"
    using round64_overflow[of 1024] by (simp del: power_numeral)
  then show ?thesis
    by (simp add: lsa_solve_scipy_eq[OF s b] finite_costs_def Let_def del: fl_add.simps fl_mul.simps power_numeral)
qed

text \<open>
  C8 (confirmed). When the arcs have been added, the ortools backend does not report
  \<open>OPTIMAL\<close> and the default solver is not ortools, solving with ortools gives what
  solving with the default solver gives, on the same array in the same store: the array
  the caller passed, not the scaled integer costs. With ortools installed the only other
  default is scipy.
\<close>

theorem ortools_falls_back_to_default:
  assumes "pywrapgraph e = Some assignment" and "h ! costs = Float64 m"
    and "ortools_arcs (np_log10 e) (AddArcWithCost assignment) m = Inr arcs"
    and "\<not> optimal (Solve assignment arcs)"
    and "init_standard_solvers e = Inr default_solver" and "default_solver \<noteq> ''ortools''"
  shows "lsa_solve_ortools e h costs = linear_sum_assignment e h costs (Some default_solver)
         \<and> linear_sum_assignment e h costs (Some ''ortools'')
           = linear_sum_assignment e h costs (Some default_solver)
         \<and> linear_sum_assignment e h costs (Some default_solver) = lsa_solve_scipy e h costs"
proof -
  have d: "default_solver = ''scipy''"
    using assms(1,5,6)
    by (auto simp: init_standard_solvers_def available_solvers_def find_spec_def
        split: list.splits if_splits)
  show ?thesis using assms by (simp add: d lower_names)
qed

lemma example_arcs:
  "ortools_arcs correctly_rounded_log10 int64_only [[Fin 0, NaN]] = Inr [(0, 0, 0)]"
proof -
  have f: "ortools_factor correctly_rounded_log10 [[Fin 0, NaN]] = Inr 1"
    by (simp add: ortools_factor_def np_isfinite_def masked_def Let_def)
  have e: "entries [[Fin 0, NaN]] = [(0, 0, Fin 0), (0, 1, NaN)]"
    by (simp add: entries_def)
  show ?thesis
    by (simp add: ortools_arcs_def f e round64_zero trunc_def int64_only_def)
qed

theorem ortools_falls_back_to_default_witness:
  "init_standard_solvers ortools_infeasible = Inr ''scipy''
   \<and> linear_sum_assignment ortools_infeasible [Float64 [[Fin 0, NaN]]] 0 (Some ''ortools'')
       = (Inr ([0], [0]), [Float64 [[Fin 0, NaN]], Float64 [[Fin 0, Fin 1]]])"
proof -
  let ?lib = "\<lparr>AddArcWithCost = int64_only,
               Solve = (\<lambda>arcs :: arc list. \<lparr>optimal = False, NumNodes = 0, RightMate = (\<lambda>i. 0::nat)\<rparr>)\<rparr>"
  have a: "pywrapgraph ortools_infeasible = Some ?lib" by (simp add: ortools_infeasible_def)
  have b: "[Float64 [[Fin 0, NaN]]] ! 0 = Float64 [[Fin 0, NaN]]" by simp
  have c: "ortools_arcs (np_log10 ortools_infeasible) (AddArcWithCost ?lib) [[Fin 0, NaN]]
             = Inr [(0, 0, 0)]"
    using example_arcs by (simp add: ortools_infeasible_def)
  have c': "\<not> optimal (Solve ?lib [(0, 0, 0)])" by simp
  have d: "init_standard_solvers ortools_infeasible = Inr ''scipy''"
    by (simp add: ortools_infeasible_def init_standard_solvers_def available_solvers_def
        find_spec_def)
  have e: "''scipy'' \<noteq> ''ortools''" by simp
  have s: "scipy_solve ortools_infeasible = Some exhaustive_solve"
    by (simp add: ortools_infeasible_def)
  have "lsa_solve_scipy ortools_infeasible [Float64 [[Fin 0, NaN]]] 0
          = (Inr ([0], [0]), [Float64 [[Fin 0, NaN]], Float64 [[Fin 0, Fin 1]]])"
    by (simp add: lsa_solve_scipy_eq[OF s b] finite_costs_def exhaustive_1x2 Let_def
        round64_zero round64_one)
  with ortools_falls_back_to_default[OF a b c c' d e] d show ?thesis by simp
qed

section \<open>The solver layer: the caller's matrix\<close>

lemma frame_scipy: "\<exists>new. snd (lsa_solve_scipy e h costs) = h @ new"
  by (auto simp: lsa_solve_scipy_def np_copy_def Let_def split: option.splits ndarray.splits)

lemma frame_lapsolver: "\<exists>new. snd (lsa_solve_lapsolver e h costs) = h @ new"
  by (auto simp: lsa_solve_lapsolver_def split: option.splits)

lemma frame_munkres: "\<exists>new. snd (lsa_solve_munkres e h costs) = h @ new"
  by (auto simp: lsa_solve_munkres_def np_copy_def astype_object_def Let_def list_update_append
      split: option.splits ndarray.splits sum.splits prod.splits if_splits)

lemma frame_both:
  "\<exists>new. snd (linear_sum_assignment e h costs solver) = h @ new"
  "\<exists>new. snd (lsa_solve_ortools e h costs) = h @ new"
proof (induction e h costs solver and e h costs rule: linear_sum_assignment_lsa_solve_ortools.induct)
  case (1 e h costs solver)
  show ?case
    apply (subst linear_sum_assignment.simps)
    using 1 frame_scipy frame_lapsolver frame_munkres
    by (auto simp: Let_def split: sum.splits)
next
  case (2 e h costs)
  show ?case
    apply (subst lsa_solve_ortools.simps)
    using 2
    by (auto simp: Let_def split: sum.splits option.splits ndarray.splits)
qed

text \<open>
  C10 (confirmed). Whatever the solver name and the installed backends, the store after
  \<open>linear_sum_assignment\<close> begins with the store before it: the arrays that existed, the
  caller's matrix among them, are unchanged, and the substitutions went into arrays
  allocated by the adapters. (The backends are functions of the array they are handed:
  what a third-party library does to its argument is outside the model.)
\<close>

theorem caller_matrix_unchanged:
  "take (length h) (snd (linear_sum_assignment e h costs solver)) = h
   \<and> (costs < length h \<longrightarrow> snd (linear_sum_assignment e h costs solver) ! costs = h ! costs)"
proof -
  obtain new where "snd (linear_sum_assignment e h costs solver) = h @ new"
    using frame_both(1) by blast
  then show ?thesis by (simp add: nth_append)
qed

theorem caller_matrix_unchanged_witness:
  "(0::nat) < length [Float64 [[Fin 0, NaN]]]
   \<and> snd (linear_sum_assignment scipy_only [Float64 [[Fin 0, NaN]]] 0 (Some ''scipy''))
       = [Float64 [[Fin 0, NaN]], Float64 [[Fin 0, Fin 1]]]
   \<and> snd (linear_sum_assignment scipy_only [Float64 [[Fin 0, NaN]]] 0 (Some ''scipy'')) ! 0
       = [Float64 [[Fin 0, NaN]]] ! 0"
proof -
  have s: "scipy_solve scipy_only = Some exhaustive_solve" by (simp add: scipy_only_def)
  have b: "[Float64 [[Fin 0, NaN]]] ! 0 = Float64 [[Fin 0, NaN]]" by simp
  have "snd (linear_sum_assignment scipy_only [Float64 [[Fin 0, NaN]]] 0 (Some ''scipy''))
       = [Float64 [[Fin 0, NaN]], Float64 [[Fin 0, Fin 1]]]"
    by (simp add: default_scipy[OF s] lower_names lsa_solve_scipy_eq[OF s b] finite_costs_def
        Let_def round64_zero round64_one)
  with caller_matrix_unchanged[of "[Float64 [[Fin 0, NaN]]]" scipy_only 0 "Some ''scipy''"]
  show ?thesis by simp
qed

section \<open>The container: what a cycle does to \<open>_compute\<close>\<close>

lemma reaches_cycle_dep:
  assumes "reaches_cycle ms a"
  shows "\<exists>mi d. map_of ms a = Some mi \<and> d \<in> set (deps mi) \<and> reaches_cycle ms d"
proof -
  from assms obtain c where ac: "(a, c) \<in> (dep_rel ms)\<^sup>*" and cc: "(c, c) \<in> (dep_rel ms)\<^sup>+"
    by (auto simp: reaches_cycle_def)
  have "\<exists>d. (a, d) \<in> dep_rel ms \<and> (d, c) \<in> (dep_rel ms)\<^sup>*"
  proof (cases "a = c")
    case True
    with cc show ?thesis by (auto dest: tranclD)
  next
    case False
    with ac show ?thesis by (auto elim: converse_rtranclE)
  qed
  then obtain d where "(a, d) \<in> dep_rel ms" and "(d, c) \<in> (dep_rel ms)\<^sup>*" by blast
  with cc show ?thesis by (auto simp: dep_rel_def reaches_cycle_def)
qed

lemma clean_returns:
  "clean ms st \<Longrightarrow> compute n ms df nm st p = Some (Inr (v, st')) \<Longrightarrow> \<not> reaches_cycle ms nm \<and> clean ms st'"
  "clean ms st \<Longrightarrow> compute_deps n ms df nm ds vals st = Some (Inr (vals', st'))
     \<Longrightarrow> (\<forall>d\<in>set ds. \<not> reaches_cycle ms d) \<and> clean ms st'"
proof (induction n ms df nm st p and n ms df nm ds vals st arbitrary: v st' and vals' st'
       rule: compute_compute_deps.induct)
  case (1 ms df nm st parent)
  then show ?case by simp
next
  case (2 n ms df nm st parent)
  from "2.prems"(2) obtain mi vals st1 where mi: "map_of ms nm = Some mi"
    and cd: "compute_deps n ms df nm (deps mi) [] st = Some (Inr (vals, st1))"
    and st': "st' = st1\<lparr>executed := executed st1 @ [nm]\<rparr>"
    by (auto split: option.splits sum.splits)
  from "2.IH"[OF mi "2.prems"(1) cd] have nb: "\<forall>d\<in>set (deps mi). \<not> reaches_cycle ms d" and c1: "clean ms st1"
    by auto
  from nb mi have "\<not> reaches_cycle ms nm"
    using reaches_cycle_dep[of ms nm] by auto
  moreover from c1 st' have "clean ms st'" by (simp add: clean_def)
  ultimately show ?case by simp
next
  case (3 n ms df nm vals st)
  then show ?case by simp
next
  case (4 n ms df nm depname rest vals st)
  show ?case
  proof (cases "cache st depname")
    case (Some w)
    with "4.prems"(1) have nd: "\<not> reaches_cycle ms depname" by (auto simp: clean_def)
    from Some "4.prems"(2) have "compute_deps n ms df nm rest (vals @ [w]) st = Some (Inr (vals', st'))"
      by simp
    from "4.IH"(3)[OF Some "4.prems"(1) this] nd show ?thesis by simp
  next
    case None
    with "4.prems"(2) obtain w st1 where c: "compute n ms df depname st nm = Some (Inr (w, st1))"
      and r: "compute_deps n ms df nm rest (vals @ [w]) (st1\<lparr>cache := (cache st1)(depname \<mapsto> w)\<rparr>)
                = Some (Inr (vals', st'))"
      by (auto split: option.splits sum.splits)
    from "4.IH"(1)[OF None "4.prems"(1) c] have nd: "\<not> reaches_cycle ms depname" and c1: "clean ms st1"
      by auto
    from nd c1 have c2: "clean ms (st1\<lparr>cache := (cache st1)(depname \<mapsto> w)\<rparr>)"
      by (auto simp: clean_def)
    from "4.IH"(2)[OF None c _ _ c2 r] nd show ?thesis by simp
  qed
qed

lemma compute_deps_length:
  "compute_deps n ms df nm ds vals st = Some (Inr (vals', st')) \<Longrightarrow> length vals' = length vals + length ds"
proof (induction ds arbitrary: vals st)
  case Nil
  then show ?case by simp
next
  case (Cons d ds)
  then show ?case
    by (cases "cache st d") (fastforce split: option.splits sum.splits)+
qed

lemma registered_no_error:
  "all_registered ms \<Longrightarrow> never_raises ms df \<Longrightarrow> map_of ms nm \<noteq> None
     \<Longrightarrow> compute n ms df nm st p \<noteq> Some (Inl err)"
  "all_registered ms \<Longrightarrow> never_raises ms df \<Longrightarrow> \<forall>d\<in>set ds. map_of ms d \<noteq> None
     \<Longrightarrow> compute_deps n ms df nm ds vals st \<noteq> Some (Inl err)"
proof (induction n ms df nm st p and n ms df nm ds vals st
       rule: compute_compute_deps.induct)
  case (1 ms df nm st parent)
  then show ?case by simp
next
  case (2 n ms df nm st parent)
  from "2.prems"(3) obtain mi where mi: "map_of ms nm = Some mi" by auto
  then have mem: "(nm, mi) \<in> set ms" by (rule map_of_SomeD)
  with "2.prems"(1) have reg: "\<forall>d\<in>set (deps mi). map_of ms d \<noteq> None"
    by (auto simp: all_registered_def)
  have ne: "compute_deps n ms df nm (deps mi) [] st \<noteq> Some (Inl err)"
    using "2.IH"[OF mi "2.prems"(1,2) reg] .
  show ?case
  proof (cases "compute_deps n ms df nm (deps mi) [] st")
    case None
    with mi show ?thesis by simp
  next
    case (Some r)
    show ?thesis
    proof (cases r)
      case (Inl e)
      with Some ne mi show ?thesis by auto
    next
      case (Inr x)
      obtain vals st1 where x: "x = (vals, st1)" by (cases x)
      from Some Inr x have "length vals = length (deps mi)"
        using compute_deps_length by fastforce
      with "2.prems"(2) mem obtain v where "call (fnc mi) df vals = Inr v"
        by (fastforce simp: never_raises_def)
      with Some Inr x mi show ?thesis by simp
    qed
  qed
next
  case (3 n ms df nm vals st)
  then show ?case by simp
next
  case (4 n ms df nm depname rest vals st)
  from "4.prems"(3) have rd: "map_of ms depname \<noteq> None" and rr: "\<forall>d\<in>set rest. map_of ms d \<noteq> None"
    by auto
  show ?case
  proof (cases "cache st depname")
    case (Some w)
    with "4.IH"(3)[OF Some "4.prems"(1,2) rr] show ?thesis by simp
  next
    case None
    have ne: "compute n ms df depname st nm \<noteq> Some (Inl err)"
      using "4.IH"(1)[OF None "4.prems"(1,2) rd] .
    show ?thesis
    proof (cases "compute n ms df depname st nm")
      case None2: None
      with None show ?thesis by simp
    next
      case (Some r)
      show ?thesis
      proof (cases r)
        case (Inl e)
        with Some ne None show ?thesis by auto
      next
        case (Inr x)
        obtain w st1 where x: "x = (w, st1)" by (cases x)
        from "4.IH"(2)[OF None Some[unfolded Inr x] refl refl "4.prems"(1,2) rr] 
        show ?thesis using None Some Inr x by simp
      qed
    qed
  qed
qed

lemma summarize_loop_cycle:
  "clean ms st \<Longrightarrow> \<exists>nm\<in>set req. reaches_cycle ms nm \<Longrightarrow> summarize_loop n ms df req st \<noteq> Some (Inr st')"
proof (induction req arbitrary: st)
  case Nil
  then show ?case by simp
next
  case (Cons r req)
  show ?case
  proof
    assume a: "summarize_loop n ms df (r # req) st = Some (Inr st')"
    then obtain v st1 where c: "compute n ms df r st ''summarize'' = Some (Inr (v, st1))"
      and l: "summarize_loop n ms df req (st1\<lparr>cache := (cache st1)(r \<mapsto> v)\<rparr>) = Some (Inr st')"
      by (auto split: option.splits sum.splits)
    from clean_returns(1)[OF Cons.prems(1) c] have nr: "\<not> reaches_cycle ms r" and c1: "clean ms st1"
      by auto
    then have c2: "clean ms (st1\<lparr>cache := (cache st1)(r \<mapsto> v)\<rparr>)" by (auto simp: clean_def)
    from nr Cons.prems(2) have "\<exists>nm\<in>set req. reaches_cycle ms nm" by auto
    from Cons.IH[OF c2 this] l show False by simp
  qed
qed

lemma summarize_loop_no_error:
  "all_registered ms \<Longrightarrow> never_raises ms df \<Longrightarrow> \<forall>k\<in>set req. map_of ms k \<noteq> None
     \<Longrightarrow> summarize_loop n ms df req st \<noteq> Some (Inl err)"
proof (induction req arbitrary: st)
  case Nil
  then show ?case by simp
next
  case (Cons r req)
  have "compute n ms df r st ''summarize'' \<noteq> Some (Inl err)"
    using registered_no_error(1)[OF Cons.prems(1,2)] Cons.prems(3) by simp
  moreover have "summarize_loop n ms df req st1 \<noteq> Some (Inl err)" for st1
    using Cons.IH[OF Cons.prems(1,2)] Cons.prems(3) by simp
  ultimately show ?case
    by (auto split: option.splits sum.splits)
qed

lemma summarize_cycle:
  assumes "nm \<in> set requested" and "reaches_cycle ms nm"
  shows "MetricsContainer_summarize n ms df (Some requested) \<noteq> Some (Inr res)"
    and "all_registered ms \<Longrightarrow> never_raises ms df \<Longrightarrow> \<forall>k\<in>set requested. map_of ms k \<noteq> None
           \<Longrightarrow> MetricsContainer_summarize n ms df (Some requested) = None"
proof -
  let ?st0 = "\<lparr>cache = Map.empty, executed = []\<rparr>"
  have c0: "clean ms ?st0" by (simp add: clean_def)
  have nv: "summarize_loop n ms df requested ?st0 \<noteq> Some (Inr st')" for st'
    using summarize_loop_cycle[OF c0] assms by blast
  then show "MetricsContainer_summarize n ms df (Some requested) \<noteq> Some (Inr res)"
    by (auto simp: MetricsContainer_summarize_def Let_def split: option.splits sum.splits)
  assume "all_registered ms" "never_raises ms df" "\<forall>k\<in>set requested. map_of ms k \<noteq> None"
  then have "summarize_loop n ms df requested ?st0 \<noteq> Some (Inl err)" for err
    using summarize_loop_no_error by blast
  with nv have "summarize_loop n ms df requested ?st0 = None"
    by (cases "summarize_loop n ms df requested ?st0") (auto, metis sum.exhaust)
  then show "MetricsContainer_summarize n ms df (Some requested) = None"
    by (simp add: MetricsContainer_summarize_def)
qed

lemma cyclic_facts:
  "reaches_cycle cyclic ''a''" "all_registered cyclic" "never_raises cyclic df"
   by (auto simp: reaches_cycle_def dep_rel_def cyclic_def all_registered_def never_raises_def
        self_dependent_def def2_def call_def intro!: exI[of _ "''a''"])

section \<open>The container: memoization\<close>

text \<open>
  C3 (code defect). The claim: a metric requested twice in one call runs once. The loop
  of \<open>summarize\<close> calls \<open>_compute\<close> for every requested name without looking into the
  cache (the loop over the dependencies in \<open>_compute\<close> does look): a metric without
  dependencies that is requested twice runs twice. The value is the same both times and
  is cached under the name.
\<close>

theorem requested_twice_runs_twice:
  assumes "map_of ms nm = Some mi" and "deps mi = []" and "call (fnc mi) df [] = Inr v"
  shows "MetricsContainer_summarize (Suc n) ms df (Some [nm, nm]) = Some (Inr ([(nm, v)], [nm, nm]))"
  using assms by (simp add: MetricsContainer_summarize_def)

theorem requested_twice_runs_twice_witness:
  "MetricsContainer_summarize 1 [(''num_matches'', \<lparr>name = ''num_matches'', fnc = def1 ''num_matches'' num_matches, deps = []\<rparr>)]
      example_log (Some [''num_matches'', ''num_matches''])
    = Some (Inr ([(''num_matches'', PyFloat 1)], [''num_matches'', ''num_matches'']))"
proof -
  let ?mi = "\<lparr>name = ''num_matches'', fnc = def1 ''num_matches'' num_matches, deps = []\<rparr>"
  have a: "map_of [(''num_matches'', ?mi)] ''num_matches'' = Some ?mi" by simp
  have b: "deps ?mi = []" by simp
  have c: "call (fnc ?mi) example_log [] = Inr (PyFloat 1)"
    by (simp add: call_def def1_def num_matches_def count_type_def example_log_def)
  show ?thesis using requested_twice_runs_twice[OF a b c, of 0] by simp
qed

text \<open>The same happens to a metric that was computed as a dependency and is requested
  by name afterwards: its value is in the cache, and it runs again.\<close>

lemma dependency_then_requested_runs_twice:
  assumes "map_of ms a = Some ma" and "deps ma = []" and "call (fnc ma) df [] = Inr va"
    and "map_of ms b = Some mb" and "deps mb = [a]" and "call (fnc mb) df [va] = Inr vb"
    and "a \<noteq> b"
  shows "MetricsContainer_summarize (Suc (Suc n)) ms df (Some [b, a])
           = Some (Inr ([(b, vb), (a, va)], [a, b, a]))"
  using assms by (simp add: MetricsContainer_summarize_def)

section \<open>The container: dependency cycles\<close>

text \<open>
  C4 (corrected). The claim: a dependency cycle is detected and reported before
  evaluation. \<open>register\<close> accepts a metric that depends on itself, and the evaluation of
  that registry has not returned, with an error or otherwise, at recursion depth 1000.
\<close>

theorem cycle_not_reported_counterexample:
  "register [] (Some self_dependent) DepsAuto None = Inr cyclic
   \<and> MetricsContainer_summarize 1000 cyclic example_log (Some [''a'']) = None"
proof -
  have "register [] (Some self_dependent) DepsAuto None = Inr cyclic"
    by (simp add: register_def self_dependent_def def2_def cyclic_def Let_def)
  moreover have "MetricsContainer_summarize 1000 cyclic example_log (Some [''a'']) = None"
    using summarize_cycle(2)[of "''a''" "[''a'']" cyclic example_log 1000] cyclic_facts
    by (simp add: cyclic_def)
  ultimately show ?thesis by simp
qed

text \<open>
  C4 as amended: nothing checks the registry for cycles. When a requested metric reaches
  a dependency cycle, \<open>summarize\<close> returns no result at any recursion depth; and when
  moreover every name involved is registered and no metric function raises, it does not
  return at all, however deep the recursion may go (in Python, until the stack is
  exhausted).
\<close>

theorem cycle_recursion_unbounded:
  assumes "nm \<in> set requested" and "reaches_cycle ms nm"
  shows "MetricsContainer_summarize n ms df (Some requested) \<noteq> Some (Inr res)
         \<and> (all_registered ms \<and> never_raises ms df \<and> (\<forall>k\<in>set requested. map_of ms k \<noteq> None)
              \<longrightarrow> MetricsContainer_summarize n ms df (Some requested) = None)"
  using summarize_cycle[OF assms] by blast

theorem cycle_recursion_unbounded_witness:
  "''a'' \<in> set [''a''] \<and> reaches_cycle cyclic ''a'' \<and> all_registered cyclic
   \<and> never_raises cyclic example_log \<and> map_of cyclic ''a'' \<noteq> None
   \<and> MetricsContainer_summarize 50 cyclic example_log (Some [''a'']) = None"
proof -
  have a: "''a'' \<in> set [''a'']" by simp
  have r: "\<forall>k\<in>set [''a'']. map_of cyclic k \<noteq> None" by (simp add: cyclic_def)
  from cycle_recursion_unbounded[OF a cyclic_facts(1), of 50 example_log] cyclic_facts r a
  show ?thesis by simp
qed

section \<open>The metric functions\<close>

text \<open>
  C5 (code defect). The claim: \<open>num_misses\<close> returns the number of rows of type MISS.
  The function has no \<open>return\<close> statement: registered as in \<open>default_metrics\<close> and
  evaluated through the container, its value is \<open>None\<close> for every event log.
\<close>

theorem num_misses_returns_none:
  assumes "register ms (Some (def1 ''num_misses'' num_misses)) DepsNone None = Inr ms'"
  shows "num_misses df = Inr PNone
         \<and> MetricsContainer_summarize (Suc n) ms' df (Some [''num_misses''])
             = Some (Inr ([(''num_misses'', PNone)], [''num_misses'']))"
proof -
  from assms have "map_of ms' ''num_misses''
      = Some \<lparr>name = ''num_misses'', fnc = def1 ''num_misses'' num_misses, deps = []\<rparr>"
    by (auto simp: register_def def1_def update_conv' Let_def)
  then show ?thesis
    by (simp add: MetricsContainer_summarize_def call_def def1_def num_misses_def)
qed

theorem num_misses_returns_none_witness:
  "count_type MISS example_log = 1
   \<and> num_misses example_log = Inr PNone
   \<and> register [] (Some (def1 ''num_misses'' num_misses)) DepsNone None
       = Inr [(''num_misses'', \<lparr>name = ''num_misses'', fnc = def1 ''num_misses'' num_misses, deps = []\<rparr>)]
   \<and> MetricsContainer_summarize 1
        [(''num_misses'', \<lparr>name = ''num_misses'', fnc = def1 ''num_misses'' num_misses, deps = []\<rparr>)]
        example_log (Some [''num_misses''])
       = Some (Inr ([(''num_misses'', PNone)], [''num_misses'']))"
proof -
  have r: "register [] (Some (def1 ''num_misses'' num_misses)) DepsNone None
       = Inr [(''num_misses'', \<lparr>name = ''num_misses'', fnc = def1 ''num_misses'' num_misses, deps = []\<rparr>)]"
    by (simp add: register_def def1_def Let_def)
  have c: "count_type MISS example_log = 1"
    by (simp add: count_type_def example_log_def)
  from num_misses_returns_none[OF r, of example_log 0] r c show ?thesis by simp
qed

text \<open>
  C6 (code defect). The claim: \<open>mostly_tracked\<close> and \<open>mostly_lost\<close> count the objects by
  track ratio. Both functions read the unbound name \<open>track_ratio\<close> and raise
  \<open>NameError\<close> whatever their arguments, so in a registry that holds them the container
  never returns a value for either name.
\<close>

theorem mostly_tracked_raises:
  assumes "map_of ms ''mostly_tracked'' = Some mt"
    and "fnc mt = def2 ''mostly_tracked'' ''track_ratios'' mostly_tracked"
    and "map_of ms ''mostly_lost'' = Some ml"
    and "fnc ml = def2 ''mostly_lost'' ''track_ratios'' mostly_lost"
  shows "mostly_tracked df ratios = Inl (NameError ''track_ratio'')
       \<and> mostly_lost df ratios = Inl (NameError ''track_ratio'')
       \<and> compute n ms df ''mostly_tracked'' st p \<noteq> Some (Inr r)
       \<and> compute n ms df ''mostly_lost'' st p \<noteq> Some (Inr r)"
proof -
  have "call (def2 nm a mostly_tracked) df vals \<noteq> Inr v" for nm a vals v
    by (simp add: call_def def2_def mostly_tracked_def)
  moreover have "call (def2 nm a mostly_lost) df vals \<noteq> Inr v" for nm a vals v
    by (simp add: call_def def2_def mostly_lost_def)
  ultimately show ?thesis
    using assms
    by (cases n) (auto simp: mostly_tracked_def mostly_lost_def split: option.splits sum.splits)
qed

lemma tracking_registry_registered:
  "register [] (Some (def1 ''obj_frequencies'' obj_frequencies)) DepsNone None = Inr r1 \<Longrightarrow>
   register r1 (Some (def2 ''track_ratios'' ''obj_frequencies'' track_ratios)) DepsAuto None = Inr r2 \<Longrightarrow>
   register r2 (Some (def2 ''mostly_tracked'' ''track_ratios'' mostly_tracked)) DepsAuto None = Inr r3 \<Longrightarrow>
   register r3 (Some (def2 ''mostly_lost'' ''track_ratios'' mostly_lost)) DepsAuto None = Inr r4 \<Longrightarrow>
   r4 = tracking_registry"
  by (auto simp: register_def def1_def def2_def tracking_registry_def Let_def)

text \<open>Evaluated on the registry built as \<open>default_metrics\<close> builds it, the error is the
  one that \<open>track_ratios\<close>, on which both depend, raises first.\<close>

theorem mostly_tracked_raises_witness:
  "MetricsContainer_summarize 5 tracking_registry example_log (Some [''mostly_tracked''])
     = Some (Inl (NameError ''data''))
   \<and> MetricsContainer_summarize 5 tracking_registry example_log (Some [''mostly_lost''])
     = Some (Inl (NameError ''data''))
   \<and> mostly_tracked example_log (Series [(''a'', 1), (''b'', 0)]) = Inl (NameError ''track_ratio'')
   \<and> mostly_lost example_log (Series [(''a'', 1), (''b'', 0)]) = Inl (NameError ''track_ratio'')"
proof -
  have a: "map_of tracking_registry ''mostly_tracked'' = Some \<lparr>name = ''mostly_tracked'',
             fnc = def2 ''mostly_tracked'' ''track_ratios'' mostly_tracked, deps = [''track_ratios'']\<rparr>"
    by (simp add: tracking_registry_def)
  have b: "map_of tracking_registry ''mostly_lost'' = Some \<lparr>name = ''mostly_lost'',
             fnc = def2 ''mostly_lost'' ''track_ratios'' mostly_lost, deps = [''track_ratios'']\<rparr>"
    by (simp add: tracking_registry_def)
  have e: "MetricsContainer_summarize 5 tracking_registry example_log (Some [nm]) = Some (Inl (NameError ''data''))"
    if "nm = ''mostly_tracked'' \<or> nm = ''mostly_lost''" for nm
    using that
    by (auto simp: MetricsContainer_summarize_def tracking_registry_def eval_nat_numeral
        call_def def1_def def2_def obj_frequencies_def track_ratios_def)
  from mostly_tracked_raises[OF a _ b, of example_log "Series [(''a'', 1), (''b'', 0)]"] e
  show ?thesis by simp
qed

section \<open>The module-level \<open>summarize\<close>\<close>

lemma frames_zip:
  "\<forall>d\<in>set (take (length l) accs). cm (events_of d) = Inr (f d)
     \<Longrightarrow> frames cm (zip l (map events_of accs)) = Inr (zip l (map f accs))"
  by (induction l accs rule: list_induct2') auto

lemma events_of_map:
  "map (\<lambda>d. case d of MOTAccumulator ev \<Rightarrow> ev | DataFrame ev \<Rightarrow> ev) accs = map events_of accs"
  by (simp add: events_of_def)

text \<open>
  C7 (code defect). The claim: \<open>summarize\<close> returns one row per log, and fails when
  fewer names than logs are given. With a non-empty list of names and at least one
  input, whenever \<open>compute_metrics\<close> returns on the inputs that have a name, \<open>summarize\<close>
  returns the table of \<open>zip(names, rows)\<close>: the i-th row is the metrics of the i-th input
  under the i-th name. When the names are fewer than the inputs this is no error and not
  one row per input: the inputs beyond the names are not even evaluated.
\<close>

theorem fewer_names_drop_inputs:
  assumes "l \<noteq> []" and "accs \<noteq> []"
    and "\<forall>d\<in>set (take (length l) accs). cm (events_of d) = Inr (f d)"
  shows "summarize cm (Several accs) (NamesList l) = Inr (zip l (map f accs))"
proof -
  have "zip l (map f accs) \<noteq> []" using assms(1,2) by (cases l; cases accs) auto
  then show ?thesis
    using frames_zip[OF assms(3)]
    by (simp add: summarize_def events_of_map pd_concat_def)
qed

theorem fewer_names_drop_inputs_witness:
  "[StrLabel ''full''] \<noteq> [] \<and> [DataFrame example_log, DataFrame []] \<noteq> []
   \<and> length [StrLabel ''full''] < length [DataFrame example_log, DataFrame []]
   \<and> summarize (\<lambda>ev. Inr ev) (Several [DataFrame example_log, DataFrame []])
        (NamesList [StrLabel ''full''])
       = Inr [(StrLabel ''full'', example_log)]"
proof -
  have a: "[StrLabel ''full''] \<noteq> []" by simp
  have b: "[DataFrame example_log, DataFrame []] \<noteq> []" by simp
  have c: "\<forall>d\<in>set (take (length [StrLabel ''full'']) [DataFrame example_log, DataFrame []]).
             (\<lambda>ev. Inr ev) (events_of d) = (Inr (events_of d) :: error + dataframe)"
    by simp
  from fewer_names_drop_inputs[OF a b c] show ?thesis by (simp add: events_of_def)
qed

text \<open>
  C9 (code defect). The claim: with a string as \<open>names\<close> the inputs beyond the length of
  the string are silently dropped from the table. A string is an \<open>Iterable\<close>, so the
  guard that wraps a single name into a list lets it through and \<open>zip\<close> pairs the inputs
  with its characters. With the empty string no input has a character, and no table
  comes out: \<open>pd.concat\<close> is given an empty list and raises, whatever the inputs are.
\<close>

theorem empty_string_raises:
  "summarize cm accs (NamesStr '''') = Inl (ValueError ''No objects to concatenate'')"
  by (simp add: summarize_def pd_concat_def)

text \<open>For a string that is not empty the rows are labelled by its characters, one each;
  a single accumulator named \<open>'full'\<close> gets the row label \<open>'f'\<close>.\<close>

lemma string_names_are_characters:
  assumes "s \<noteq> []" and "accs \<noteq> []"
    and "\<forall>d\<in>set (take (length s) accs). cm (events_of d) = Inr (f d)"
  shows "summarize cm (Several accs) (NamesStr s)
           = Inr (zip (map (\<lambda>c. StrLabel [c]) s) (map f accs))"
proof -
  let ?l = "map (\<lambda>c. StrLabel [c]) s"
  have "zip ?l (map f accs) \<noteq> []" using assms(1,2) by (cases s; cases accs) auto
  moreover have "\<forall>d\<in>set (take (length ?l) accs). cm (events_of d) = Inr (f d)"
    using assms(3) by simp
  ultimately show ?thesis
    using frames_zip[of ?l accs cm f]
    by (simp add: summarize_def events_of_map pd_concat_def)
qed

lemma single_name_is_split:
  assumes "cm (events_of a) = Inr row"
  shows "summarize cm (One a) (NamesStr ''full'') = Inr [(StrLabel ''f'', row)]"
  using assms by (simp add: summarize_def pd_concat_def events_of_def)

end
